theory Spec2Isabelle
  imports Main "HOL-Library.Word"
begin

section \<open>Package config: log metrics\<close>

text \<open>
  Go's \<open>int\<close> is a signed machine integer, 64 bits wide on the platforms the suite is
  built for. The source only compares such values and takes \<open>len\<close> of a slice; the
  comparisons \<open>a < b\<close> and \<open>a > b\<close> of Go are the signed order \<open><s\<close> on words.
\<close>

type_synonym go_int = "64 word"

text \<open>A Go \<open>byte\<close> is an 8-bit value, as a HOL \<open>char\<close> is; \<^verbatim>\<open>[]byte\<close> is a \<open>char list\<close>.\<close>

type_synonym byte = char

text \<open>
  \<^verbatim>\<open>type LogMetric struct { Name string; RegEx string; HighThreshold int; LowThreshold int }\<close>
\<close>

record LogMetric =
  Name :: string
  RegEx :: string
  HighThreshold :: go_int
  LowThreshold :: go_int

text \<open>The composite literal \<^verbatim>\<open>LogMetric{}\<close>: every field has its zero value.\<close>

definition LogMetric_zero :: LogMetric where
  "LogMetric_zero = \<lparr>Name = [], RegEx = [], HighThreshold = 0, LowThreshold = 0\<rparr>"

text \<open>
  \<^verbatim>\<open>func (metric LogMetric) IsPassing(value int) bool {
      return metric.HighThreshold > value && metric.LowThreshold < value }\<close>
\<close>

definition IsPassing :: "LogMetric \<Rightarrow> go_int \<Rightarrow> bool" where
  "IsPassing metric val \<longleftrightarrow> val <s HighThreshold metric \<and> LowThreshold metric <s val"

text \<open>
  \<^verbatim>\<open>func (metrics LogMetrics) GetMetricByName(name string) *LogMetric {
      for k := range metrics {
          if name == metrics[k].Name { return &metrics[k] }
      }
      return &LogMetric{} }\<close>

  The loop runs over the indices \<open>0, 1, ...\<close> of the slice; \<open>GetMetricByName_from\<close> is
  the loop entered at index \<open>k\<close>. A \<^verbatim>\<open>*LogMetric\<close> is modelled by the struct it points
  to, with \<open>None\<close> for the nil pointer.
\<close>

function GetMetricByName_from :: "LogMetric list \<Rightarrow> string \<Rightarrow> nat \<Rightarrow> LogMetric option" where
  "GetMetricByName_from metrics name k =
     (if k < length metrics then
        (if name = Name (metrics ! k) then Some (metrics ! k)
         else GetMetricByName_from metrics name (Suc k))
      else Some LogMetric_zero)"
  by pat_completeness auto
termination
  by (relation "measure (\<lambda>(metrics, name, k). length metrics - k)") auto

declare GetMetricByName_from.simps [simp del]

definition GetMetricByName :: "LogMetric list \<Rightarrow> string \<Rightarrow> LogMetric option" where
  "GetMetricByName metrics name = GetMetricByName_from metrics name 0"

text \<open>
  \<^verbatim>\<open>func (metric LogMetric) HasMatches(data []byte) int {
      return len(regexp.MustCompile(metric.RegEx).FindAll(data, -1)) }\<close>

  Package \<open>regexp\<close> belongs to Go's standard library, not to this repository, so the two
  functions \<open>HasMatches\<close> calls are parameters of the model: \<open>Compile\<close> is
  \<^verbatim>\<open>regexp.Compile\<close> (\<open>None\<close> for a pattern with a syntax error, where
  \<^verbatim>\<open>regexp.MustCompile\<close> panics) and \<open>FindAll\<close> is \<^verbatim>\<open>(*Regexp).FindAll\<close>.
  The panic is a value of the result. \<open>len\<close> of a slice is a Go \<open>int\<close>; a slice has
  fewer than \<open>2^63\<close> elements, so the conversion does not wrap on a slice Go can hold.
\<close>

datatype panic = MustCompile_panic string

definition len :: "'a list \<Rightarrow> go_int" where
  "len xs = word_of_nat (length xs)"

definition HasMatches ::
  "(string \<Rightarrow> 're option) \<Rightarrow> ('re \<Rightarrow> byte list \<Rightarrow> go_int \<Rightarrow> byte list list)
     \<Rightarrow> LogMetric \<Rightarrow> byte list \<Rightarrow> panic + go_int" where
  "HasMatches Compile FindAll metric data =
     (case Compile (RegEx metric) of
        None \<Rightarrow> Inl (MustCompile_panic (RegEx metric))
      | Some re \<Rightarrow> Inr (len (FindAll re data (- 1))))"

section \<open>Go's package regexp: the scan behind FindAll\<close>

text \<open>
  What the standard library does when \<open>HasMatches\<close> calls it, written after the library's
  \<^verbatim>\<open>regexp.go\<close> (the \<^verbatim>\<open>[]byte\<close> case of each function). A compiled \<^verbatim>\<open>*Regexp\<close> is modelled by the search its matching engine
  performs: \<open>re b pos\<close> is what \<^verbatim>\<open>re.doExecute(nil, b, "", pos, ...)\<close> reports, the span
  \<open>(matches[0], matches[1])\<close> of the leftmost match in \<open>b\<close> that starts at or after
  \<open>pos\<close>, or \<open>None\<close> when there is none.
\<close>

type_synonym Regexp = "byte list \<Rightarrow> nat \<Rightarrow> (nat \<times> nat) option"

text \<open>
  \<^verbatim>\<open>func (re *Regexp) allMatches(s string, b []byte, n int, deliver func([]int)) {
      end := len(b)
      for pos, i, prevMatchEnd := 0, 0, -1; i < n && pos <= end; {
          matches := re.doExecute(nil, b, s, pos, re.prog.NumCap, nil)
          if len(matches) == 0 { break }
          accept := true
          if matches[1] == pos {
              // We've found an empty match.
              if matches[0] == prevMatchEnd {
                  // We don't allow an empty match right after a previous match, so ignore it.
                  accept = false
              }
              _, width = utf8.DecodeRune(b[pos:end])
              if width > 0 { pos += width } else { pos = end + 1 }
          } else {
              pos = matches[1]
          }
          prevMatchEnd = matches[1]
          if accept { deliver(re.pad(matches)); i++ }
      } }\<close>

  \<open>allMatches\<close> is the loop entered with the given \<open>pos\<close>, \<open>i\<close> and \<open>prevMatchEnd\<close>; it
  returns the spans delivered, in order. \<open>width b pos\<close> is the width of the rune decoded
  at \<open>pos\<close>: 0 at the end of the text and at least 1 before it.
\<close>

function allMatches ::
  "(byte list \<Rightarrow> nat \<Rightarrow> nat) \<Rightarrow> Regexp \<Rightarrow> byte list \<Rightarrow> nat \<Rightarrow> nat \<Rightarrow> nat \<Rightarrow> int
     \<Rightarrow> (nat \<times> nat) list" where
  "allMatches width re b n pos i prevMatchEnd =
     (if i < n \<and> pos \<le> length b then
        (case re b pos of
           None \<Rightarrow> []
         | Some (m0, m1) \<Rightarrow>
             if m1 = pos then
               (if int m0 = prevMatchEnd then
                  allMatches width re b n
                    (if 0 < width b pos then pos + width b pos else length b + 1) i (int m1)
                else
                  (m0, m1) # allMatches width re b n
                    (if 0 < width b pos then pos + width b pos else length b + 1) (Suc i) (int m1))
             else (m0, m1) # allMatches width re b n m1 (Suc i) (int m1))
      else [])"
  by pat_completeness auto
termination
  by (relation "measures [\<lambda>(width, re, b, n, pos, i, prevMatchEnd). n - i,
                          \<lambda>(width, re, b, n, pos, i, prevMatchEnd). length b + 1 - pos]") auto

declare allMatches.simps [simp del]

text \<open>
  \<^verbatim>\<open>func (re *Regexp) FindAll(b []byte, n int) [][]byte {
      if n < 0 { n = len(b) + 1 }
      var result [][]byte
      re.allMatches("", b, n, func(match []int) {
          result = append(result, b[match[0]:match[1]:match[1]]) })
      return result }\<close>

  The engine reports spans inside \<open>b\<close> only, so the slice expression is \<open>take\<close> after
  \<open>drop\<close>.
\<close>

definition FindAll :: "(byte list \<Rightarrow> nat \<Rightarrow> nat) \<Rightarrow> Regexp \<Rightarrow> byte list \<Rightarrow> go_int \<Rightarrow> byte list list" where
  "FindAll width re b n =
     map (\<lambda>(m0, m1). take (m1 - m0) (drop m0 b))
       (allMatches width re b (nat (sint (if n <s 0 then len b + 1 else n))) 0 0 (- 1))"


text \<open>
  The notion of the specification: the non-overlapping occurrences of a regular
  expression in a text, read from left to right. A match starts at position \<open>p\<close> when
  the search started at \<open>p\<close> reports a span that begins at \<open>p\<close>; \<open>match_at\<close> gives its
  end. \<open>sweep\<close> visits the positions of the text in order: \<open>free\<close> is the first position
  that the preceding occurrence does not cover and \<open>prev_end\<close> is where it ends. A match
  that starts at a position not covered is the next occurrence, and it covers the
  positions up to its end. As the library's documentation has it, an empty match that
  abuts the preceding occurrence is not an occurrence; an empty match covers the rune
  at its position.
\<close>

definition match_at :: "Regexp \<Rightarrow> byte list \<Rightarrow> nat \<Rightarrow> nat option" where
  "match_at re b p = (case re b p of None \<Rightarrow> None | Some (s, e) \<Rightarrow> if s = p then Some e else None)"

fun sweep ::
  "(byte list \<Rightarrow> nat \<Rightarrow> nat) \<Rightarrow> Regexp \<Rightarrow> byte list \<Rightarrow> nat list \<Rightarrow> nat \<Rightarrow> nat option
     \<Rightarrow> (nat \<times> nat) list" where
  "sweep width re b [] free prev_end = []"
| "sweep width re b (p # ps) free prev_end =
     (if p < free then sweep width re b ps free prev_end
      else case match_at re b p of
             None \<Rightarrow> sweep width re b ps free prev_end
           | Some e \<Rightarrow>
               if p < e then (p, e) # sweep width re b ps e (Some e)
               else if prev_end = Some p then
                 sweep width re b ps
                   (if 0 < width b p then p + width b p else length b + 1) (Some p)
               else
                 (p, e) # sweep width re b ps
                   (if 0 < width b p then p + width b p else length b + 1) (Some p))"

definition non_overlapping_occurrences ::
  "(byte list \<Rightarrow> nat \<Rightarrow> nat) \<Rightarrow> Regexp \<Rightarrow> byte list \<Rightarrow> (nat \<times> nat) list" where
  "non_overlapping_occurrences width re b = sweep width re b [0..<Suc (length b)] 0 None"

text \<open>
  The library on patterns without metacharacters. A pattern made of ASCII characters
  other than \<^verbatim>\<open>\.+*?()|[]{}^$\<close> denotes itself: it compiles, and its matches are the
  places where the text holds these bytes; the empty pattern matches the empty string
  at every position. \<open>Compile_literal\<close> is \<^verbatim>\<open>regexp.Compile\<close> on this fragment only
  (it answers \<open>None\<close> outside it, where it is not used except at patterns that Go
  rejects as well). \<open>ascii_width\<close> is the width of a rune of ASCII text, one byte.
\<close>

function literal_doExecute :: "byte list \<Rightarrow> Regexp" where
  "literal_doExecute lit b pos =
     (if length b < pos + length lit then None
      else if take (length lit) (drop pos b) = lit then Some (pos, pos + length lit)
      else literal_doExecute lit b (Suc pos))"
  by pat_completeness auto
termination
  by (relation "measure (\<lambda>(lit, b, pos). length b + 1 - pos)") auto

declare literal_doExecute.simps [simp del]

definition special :: "char \<Rightarrow> bool" where
  "special c \<longleftrightarrow> c \<in> set (CHR 0x5C # ''.+*?()|[]{}^$'')"

definition Compile_literal :: "string \<Rightarrow> Regexp option" where
  "Compile_literal p =
     (if \<forall>c \<in> set p. \<not> special c \<and> (of_char c :: nat) < 128
      then Some (literal_doExecute p) else None)"

definition ascii_width :: "byte list \<Rightarrow> nat \<Rightarrow> nat" where
  "ascii_width b pos = (if pos < length b then 1 else 0)"

section \<open>Poll-until-ready waiter\<close>

text \<open>
  The tests wait with \<^verbatim>\<open>wait.PollImmediate(interval, timeout, condition)\<close>. Its code
  (k8s.io/apimachinery/pkg/util/wait, vendored by the repository) is not among the
  source files, only two calls of it are; the specification describes it as
  \<open>WaitUntil\<close> (section 4.3), with three outcomes the caller can tell apart.

  Time is counted in units; a call of the predicate takes none. The predicate reads
  and changes the world \<open>'w\<close> (the cluster, and the variables the closure captures) and
  answers Go's pair \<open>(bool, error)\<close>, \<open>None\<close> being the nil error.
\<close>

datatype 'e outcome = Succeeded | Failed 'e | TimedOut

type_synonym ('w, 'e) predicate = "'w \<Rightarrow> (bool \<times> 'e option) \<times> 'w"

text \<open>
  Modelled from the spec: the loop of \<open>WaitUntil\<close> (\<^verbatim>\<open>wait.PollImmediate\<close>, whose code is
  not among the source files), entered \<open>elapsed\<close> units after the start, after \<open>calls\<close>
  invocations. The predicate is invoked at fixed intervals starting immediately; a
  non-nil error ends the loop at once and is handed to the caller; \<open>(true, nil)\<close> ends
  it with success; when the predicate answers \<open>(false, nil)\<close> and the timeout elapses
  before the next invocation is due, the loop ends with a time-out. The result is the
  outcome, the number of invocations and the world left behind; \<open>None\<close> is a loop that
  never ends.
\<close>

partial_function (option) poll ::
  "nat \<Rightarrow> nat \<Rightarrow> ('w, 'e) predicate \<Rightarrow> nat \<Rightarrow> nat \<Rightarrow> 'w \<Rightarrow> ('e outcome \<times> nat \<times> 'w) option" where
  "poll interval timeout predicate elapsed calls w =
     (case predicate w of
        ((ok, Some err), w') \<Rightarrow> Some (Failed err, Suc calls, w')
      | ((ok, None), w') \<Rightarrow>
          if ok then Some (Succeeded, Suc calls, w')
          else if timeout < elapsed + interval then Some (TimedOut, Suc calls, w')
          else poll interval timeout predicate (elapsed + interval) (Suc calls) w')"

text \<open>
  Modelled from the spec: \<open>WaitUntil(interval, timeout, predicate)\<close>
  (\<^verbatim>\<open>wait.PollImmediate\<close>, whose code is not among the source files): the first check
  has no initial delay.
\<close>

definition WaitUntil ::
  "nat \<Rightarrow> nat \<Rightarrow> ('w, 'e) predicate \<Rightarrow> 'w \<Rightarrow> ('e outcome \<times> nat \<times> 'w) option" where
  "WaitUntil interval timeout predicate w = poll interval timeout predicate 0 0 w"

text \<open>
  The condition of the first test of the source, as a predicate over the world it
  reads and writes: \<open>list_answer\<close> is what
  \<^verbatim>\<open>h.Kube().CoreV1().Secrets("openshift-config").List(listOpts)\<close> returns (the names of
  the items of the list, and the error or nil); \<open>err\<close>, \<open>secrets\<close> and \<open>secretName\<close>
  are the variables the closure captures.

  \<^verbatim>\<open>func() (bool, error) {
      secrets, err = h.Kube().CoreV1().Secrets("openshift-config").List(listOpts)
      if err != nil { return false, err }
      if len(secrets.Items) < 1 { return false, nil }
      secretName = secrets.Items[0].Name
      return true, nil }\<close>
\<close>

record 'e certman_world =
  list_answer :: "string list \<times> 'e option"
  err :: "'e option"
  secrets :: "string list"
  secretName :: string

definition secret_exists :: "('e certman_world, 'e) predicate" where
  "secret_exists w =
     (let w1 = w\<lparr>secrets := fst (list_answer w), err := snd (list_answer w)\<rparr> in
      case err w1 of
        Some e \<Rightarrow> ((False, Some e), w1)
      | None \<Rightarrow>
          (case secrets w1 of
             [] \<Rightarrow> ((False, None), w1)
           | first # _ \<Rightarrow> ((True, None), w1\<lparr>secretName := first\<rparr>)))"

section \<open>Threshold check\<close>

lemma IsPassing_sint:
  "IsPassing m c \<longleftrightarrow> sint (LowThreshold m) < sint c \<and> sint c < sint (HighThreshold m)"
  by (auto simp: IsPassing_def word_sless_alt)

text \<open>
  C1. \<open>IsPassing m c\<close> is true exactly when the count \<open>c\<close> is strictly greater than
  \<open>LowThreshold m\<close> and strictly less than \<open>HighThreshold m\<close> (as signed integers); a
  count equal to either threshold fails.
\<close>

theorem IsPassing_strict_bounds:
  "(IsPassing m c \<longleftrightarrow> LowThreshold m <s c \<and> c <s HighThreshold m)
   \<and> (IsPassing m c \<longleftrightarrow> sint (LowThreshold m) < sint c \<and> sint c < sint (HighThreshold m))
   \<and> \<not> IsPassing m (LowThreshold m)
   \<and> \<not> IsPassing m (HighThreshold m)"
  by (auto simp: IsPassing_def word_sless_alt)

lemma IsPassing_zero: "\<not> IsPassing LogMetric_zero c"
  by (simp add: IsPassing_sint LogMetric_zero_def)

text \<open>
  C5. \<open>IsPassing\<close> is monotonic in the count: from a passing count \<open>c\<close>, any count \<open>up\<close>
  at or past \<open>HighThreshold\<close> is larger than \<open>c\<close> and fails, and any count \<open>down\<close> at or
  below \<open>LowThreshold\<close> is smaller than \<open>c\<close> and fails; the passing counts of a metric
  form an interval: every count between two passing counts passes, and the set of
  passing counts is the open interval between the thresholds.
\<close>

theorem IsPassing_monotonic:
  "(IsPassing m c \<and> HighThreshold m \<le>s up \<longrightarrow> c <s up \<and> \<not> IsPassing m up)
   \<and> (IsPassing m c \<and> down \<le>s LowThreshold m \<longrightarrow> down <s c \<and> \<not> IsPassing m down)
   \<and> (IsPassing m a \<and> IsPassing m b \<and> a \<le>s x \<and> x \<le>s b \<longrightarrow> IsPassing m x)
   \<and> {c. IsPassing m c} = {c. LowThreshold m <s c \<and> c <s HighThreshold m}"
  by (auto simp: IsPassing_def word_sless_alt word_sle_eq)

theorem IsPassing_monotonic_witness:
  "IsPassing \<lparr>Name = ''errors'', RegEx = ''ERROR'', HighThreshold = 10, LowThreshold = - 1\<rparr> 0
   \<and> \<not> IsPassing \<lparr>Name = ''errors'', RegEx = ''ERROR'', HighThreshold = 10, LowThreshold = - 1\<rparr> 10
   \<and> \<not> IsPassing \<lparr>Name = ''errors'', RegEx = ''ERROR'', HighThreshold = 10, LowThreshold = - 1\<rparr> (- 2)
   \<and> IsPassing \<lparr>Name = ''errors'', RegEx = ''ERROR'', HighThreshold = 10, LowThreshold = - 1\<rparr> 9
   \<and> IsPassing \<lparr>Name = ''errors'', RegEx = ''ERROR'', HighThreshold = 10, LowThreshold = - 1\<rparr> 4"
proof -
  let ?m = "\<lparr>Name = ''errors'', RegEx = ''ERROR'', HighThreshold = 10, LowThreshold = - 1\<rparr>"
  have p0: "IsPassing ?m 0" and p9: "IsPassing ?m 9"
    by (simp_all add: IsPassing_sint)
  have hi: "HighThreshold ?m \<le>s 10" and lo: "- 2 \<le>s LowThreshold ?m"
    and mid: "0 \<le>s (4 :: go_int)" "(4 :: go_int) \<le>s 9"
    by (simp_all add: word_sle_eq)
  from IsPassing_monotonic [of ?m 0 10 "- 2" 0 9 4] p0 p9 hi lo mid
  show ?thesis by simp
qed

section \<open>Lookup by name\<close>

lemma GetMetricByName_from_first:
  "(\<exists>i. k \<le> i \<and> i < length metrics \<and> Name (metrics ! i) = name
        \<and> (\<forall>j. k \<le> j \<and> j < i \<longrightarrow> Name (metrics ! j) \<noteq> name)
        \<and> GetMetricByName_from metrics name k = Some (metrics ! i))
   \<or> ((\<forall>j. k \<le> j \<and> j < length metrics \<longrightarrow> Name (metrics ! j) \<noteq> name)
        \<and> GetMetricByName_from metrics name k = Some LogMetric_zero)"
proof (induction metrics name k rule: GetMetricByName_from.induct)
  case (1 metrics name k)
  note unf = GetMetricByName_from.simps [of metrics name k]
  show ?case
  proof (cases "k < length metrics")
    case False
    with unf show ?thesis by auto
  next
    case inb: True
    show ?thesis
    proof (cases "name = Name (metrics ! k)")
      case True
      with inb unf
      have "k \<le> k \<and> k < length metrics \<and> Name (metrics ! k) = name
        \<and> (\<forall>j. k \<le> j \<and> j < k \<longrightarrow> Name (metrics ! j) \<noteq> name)
        \<and> GetMetricByName_from metrics name k = Some (metrics ! k)"
        by auto
      then show ?thesis by blast
    next
      case False
      with inb unf
      have step: "GetMetricByName_from metrics name k = GetMetricByName_from metrics name (Suc k)"
        by simp
      have notk: "\<And>j. k \<le> j \<Longrightarrow> j \<noteq> k \<Longrightarrow> Suc k \<le> j" by arith
      from "1.IH" [OF inb False] show ?thesis
      proof
        assume "\<exists>i. Suc k \<le> i \<and> i < length metrics \<and> Name (metrics ! i) = name
          \<and> (\<forall>j. Suc k \<le> j \<and> j < i \<longrightarrow> Name (metrics ! j) \<noteq> name)
          \<and> GetMetricByName_from metrics name (Suc k) = Some (metrics ! i)"
        then obtain i where i: "Suc k \<le> i" "i < length metrics" "Name (metrics ! i) = name"
          "\<forall>j. Suc k \<le> j \<and> j < i \<longrightarrow> Name (metrics ! j) \<noteq> name"
          "GetMetricByName_from metrics name (Suc k) = Some (metrics ! i)" by blast
        have "\<forall>j. k \<le> j \<and> j < i \<longrightarrow> Name (metrics ! j) \<noteq> name"
          using i(4) False notk by metis
        with i step show ?thesis by (metis Suc_leD)
      next
        assume a: "(\<forall>j. Suc k \<le> j \<and> j < length metrics \<longrightarrow> Name (metrics ! j) \<noteq> name)
          \<and> GetMetricByName_from metrics name (Suc k) = Some LogMetric_zero"
        have "\<forall>j. k \<le> j \<and> j < length metrics \<longrightarrow> Name (metrics ! j) \<noteq> name"
          using a False notk by metis
        with a step show ?thesis by simp
      qed
    qed
  qed
qed

lemma GetMetricByName_unknown:
  assumes "\<forall>x\<in>set metrics. Name x \<noteq> name"
  shows "GetMetricByName metrics name = Some LogMetric_zero"
  using GetMetricByName_from_first [of 0 metrics name] assms
  unfolding GetMetricByName_def
  by (auto dest: nth_mem)

text \<open>
  C3. \<open>GetMetricByName\<close> returns the first metric of the collection, in order, whose
  \<open>Name\<close> equals the given name when there is one, and otherwise the empty metric
  \<open>LogMetric{}\<close>; it never returns nil.
\<close>

theorem GetMetricByName_first_match:
  "((\<exists>k<length metrics. Name (metrics ! k) = name
        \<and> (\<forall>j<k. Name (metrics ! j) \<noteq> name)
        \<and> GetMetricByName metrics name = Some (metrics ! k))
    \<or> ((\<forall>m\<in>set metrics. Name m \<noteq> name)
        \<and> GetMetricByName metrics name = Some LogMetric_zero))
   \<and> GetMetricByName metrics name \<noteq> None"
  using GetMetricByName_from_first [of 0 metrics name]
  unfolding GetMetricByName_def
  by (auto simp: in_set_conv_nth)

theorem GetMetricByName_first_match_witness:
  "GetMetricByName
     [\<lparr>Name = ''errors'', RegEx = ''ERROR'', HighThreshold = 10, LowThreshold = - 1\<rparr>,
      \<lparr>Name = ''panics'', RegEx = ''panic:'', HighThreshold = 1, LowThreshold = - 1\<rparr>,
      \<lparr>Name = ''panics'', RegEx = ''PANIC'', HighThreshold = 5, LowThreshold = 0\<rparr>]
     ''panics''
   = Some \<lparr>Name = ''panics'', RegEx = ''panic:'', HighThreshold = 1, LowThreshold = - 1\<rparr>"
  using GetMetricByName_first_match
    [of "[\<lparr>Name = ''errors'', RegEx = ''ERROR'', HighThreshold = 10, LowThreshold = - 1\<rparr>,
      \<lparr>Name = ''panics'', RegEx = ''panic:'', HighThreshold = 1, LowThreshold = - 1\<rparr>,
      \<lparr>Name = ''panics'', RegEx = ''PANIC'', HighThreshold = 5, LowThreshold = 0\<rparr>]" "''panics''"]
  by (auto simp: nth_Cons' less_Suc_eq numeral_3_eq_3 split: if_splits)

text \<open>
  The zero value \<open>LogMetric{}\<close> is not permissive: looked up under a name that no metric
  has, the collection answers a metric that a count of zero does not pass.
\<close>

theorem GetMetricByName_unknown_not_permissive:
  "GetMetricByName
     [\<lparr>Name = ''errors'', RegEx = ''ERROR'', HighThreshold = 9999, LowThreshold = - 1\<rparr>] ''warnings''
   = Some LogMetric_zero
   \<and> \<not> IsPassing LogMetric_zero 0"
  by (simp add: GetMetricByName_def GetMetricByName_from.simps IsPassing_sint LogMetric_zero_def)

text \<open>
  C2 (as the code has it). For a name that is not the \<open>Name\<close> of any metric of the
  collection, \<open>GetMetricByName\<close> returns a metric with empty name and empty regex whose
  thresholds are both zero, so that a count of zero matches does not pass \<open>IsPassing\<close>;
  the lookup never fails (the pointer is never nil).
\<close>

theorem GetMetricByName_unknown_zero_value:
  "(\<forall>x\<in>set metrics. Name x \<noteq> name) \<Longrightarrow>
     GetMetricByName metrics name
       = Some \<lparr>Name = [], RegEx = [], HighThreshold = 0, LowThreshold = 0\<rparr>
     \<and> \<not> IsPassing \<lparr>Name = [], RegEx = [], HighThreshold = 0, LowThreshold = 0\<rparr> 0
     \<and> GetMetricByName metrics name \<noteq> None"
  using GetMetricByName_unknown [of metrics name] IsPassing_zero [of 0]
  by (simp add: LogMetric_zero_def)

theorem GetMetricByName_unknown_zero_value_witness:
  "GetMetricByName
     [\<lparr>Name = ''errors'', RegEx = ''ERROR'', HighThreshold = 9999, LowThreshold = - 1\<rparr>] ''warnings''
   = Some \<lparr>Name = [], RegEx = [], HighThreshold = 0, LowThreshold = 0\<rparr>"
proof -
  have h: "\<forall>x\<in>set [\<lparr>Name = ''errors'', RegEx = ''ERROR'', HighThreshold = 9999, LowThreshold = - 1\<rparr>].
       Name x \<noteq> ''warnings''" by simp
  from GetMetricByName_unknown_zero_value [OF h] show ?thesis by simp
qed

text \<open>
  C10. A metric whose \<open>HighThreshold\<close> is at most \<open>LowThreshold + 1\<close> (read as integers,
  or computed in Go's wrapping \<open>int\<close>) passes at no count. In particular the zero value
  \<open>LogMetric{}\<close>, which is what \<open>GetMetricByName\<close> returns for a name that no metric of
  the collection has, fails at every count, 0 included.
\<close>

theorem IsPassing_degenerate_thresholds:
  "(sint (HighThreshold m) \<le> sint (LowThreshold m) + 1 \<longrightarrow> \<not> IsPassing m c)
   \<and> (HighThreshold m \<le>s LowThreshold m + 1 \<longrightarrow> \<not> IsPassing m c)
   \<and> \<not> IsPassing LogMetric_zero c \<and> \<not> IsPassing LogMetric_zero 0
   \<and> ((\<forall>x\<in>set metrics. Name x \<noteq> name) \<longrightarrow>
        GetMetricByName metrics name = Some LogMetric_zero)"
proof -
  have a: "sint (HighThreshold m) \<le> sint (LowThreshold m) + 1 \<longrightarrow> \<not> IsPassing m c"
    by (auto simp: IsPassing_sint)
  have b: "HighThreshold m \<le>s LowThreshold m + 1 \<longrightarrow> \<not> IsPassing m c"
  proof (cases "sint (LowThreshold m) + 1 < 2 ^ 63")
    case True
    have "sint (LowThreshold m + 1) = sint (LowThreshold m) + 1"
      using True sint_ge [of "LowThreshold m"]
      by (simp add: sint_word_add signed_take_bit_int_eq_self)
    then show ?thesis by (auto simp: IsPassing_sint word_sle_eq)
  next
    case False
    have "sint c < 2 ^ 63" using sint_lt [of c] by simp
    with False show ?thesis by (auto simp: IsPassing_sint)
  qed
  from a b IsPassing_zero GetMetricByName_unknown show ?thesis by blast
qed

theorem IsPassing_degenerate_thresholds_witness:
  "\<not> IsPassing \<lparr>Name = ''errors'', RegEx = ''ERROR'', HighThreshold = 1, LowThreshold = 0\<rparr> 0
   \<and> GetMetricByName
        [\<lparr>Name = ''errors'', RegEx = ''ERROR'', HighThreshold = 1, LowThreshold = 0\<rparr>] ''warnings''
       = Some LogMetric_zero"
  using IsPassing_degenerate_thresholds
    [of "\<lparr>Name = ''errors'', RegEx = ''ERROR'', HighThreshold = 1, LowThreshold = 0\<rparr>" 0
        "[\<lparr>Name = ''errors'', RegEx = ''ERROR'', HighThreshold = 1, LowThreshold = 0\<rparr>]" "''warnings''"]
  by simp

section \<open>Counting matches\<close>

lemma sint_word_of_nat: "n < 2 ^ 63 \<Longrightarrow> sint (word_of_nat n :: go_int) = int n"
  by (simp add: signed_of_nat signed_take_bit_int_eq_self)

lemma sint_len: "length xs < 2 ^ 63 \<Longrightarrow> sint (len xs) = int (length xs)"
  unfolding len_def by (rule sint_word_of_nat)

text \<open>
  C9. \<open>HasMatches\<close> returns only when the metric's \<open>RegEx\<close> compiles: for a pattern
  that \<^verbatim>\<open>regexp.Compile\<close> rejects it panics in \<^verbatim>\<open>regexp.MustCompile\<close>; for a pattern
  that compiles it does not reach the panic and returns the length of the slice
  \<open>FindAll\<close> hands back, a non-negative count (a Go slice has fewer than \<open>2^63\<close>
  elements).
\<close>

theorem HasMatches_panics_iff_invalid:
  "(compile (RegEx metric) = None \<longrightarrow>
      HasMatches compile findAll metric data = Inl (MustCompile_panic (RegEx metric)))
   \<and> (\<forall>re. compile (RegEx metric) = Some re \<and> length (findAll re data (- 1)) < 2 ^ 63 \<longrightarrow>
        (\<exists>c. HasMatches compile findAll metric data = Inr c \<and> 0 \<le>s c
            \<and> sint c = int (length (findAll re data (- 1)))))"
  by (auto simp: HasMatches_def word_sle_eq sint_len)

theorem HasMatches_panics_iff_invalid_witness:
  "HasMatches Compile_literal (FindAll ascii_width)
     \<lparr>Name = ''broken'', RegEx = ''('', HighThreshold = 9999, LowThreshold = - 1\<rparr> ''f(x)''
     = Inl (MustCompile_panic ''('')
   \<and> (\<exists>c. HasMatches Compile_literal (FindAll ascii_width)
       \<lparr>Name = ''panics'', RegEx = ''panic:'', HighThreshold = 1, LowThreshold = - 1\<rparr>
       ''panic: nil map'' = Inr c \<and> 0 \<le>s c)"
proof -
  have bad: "Compile_literal (RegEx \<lparr>Name = ''broken'', RegEx = ''('', HighThreshold = 9999, LowThreshold = - 1\<rparr>) = None"
    by (simp add: Compile_literal_def special_def)
  have good: "Compile_literal (RegEx \<lparr>Name = ''panics'', RegEx = ''panic:'', HighThreshold = 1, LowThreshold = - 1\<rparr>)
      = Some (literal_doExecute ''panic:'')"
    by (simp add: Compile_literal_def special_def)
  have found: "FindAll ascii_width (literal_doExecute ''panic:'') ''panic: nil map'' (- 1) = [''panic:'']"
    by code_simp
  have fits: "length (FindAll ascii_width (literal_doExecute ''panic:'') ''panic: nil map'' (- 1)) < 2 ^ 63"
    unfolding found by simp
  from HasMatches_panics_iff_invalid [where compile = Compile_literal
      and findAll = "FindAll ascii_width" and data = "''f(x)''"
      and metric = "\<lparr>Name = ''broken'', RegEx = ''('', HighThreshold = 9999, LowThreshold = - 1\<rparr>"] bad
  have one: "HasMatches Compile_literal (FindAll ascii_width)
     \<lparr>Name = ''broken'', RegEx = ''('', HighThreshold = 9999, LowThreshold = - 1\<rparr> ''f(x)''
     = Inl (MustCompile_panic ''('')" by simp
  from HasMatches_panics_iff_invalid [where compile = Compile_literal
      and findAll = "FindAll ascii_width" and data = "''panic: nil map''"
      and metric = "\<lparr>Name = ''panics'', RegEx = ''panic:'', HighThreshold = 1, LowThreshold = - 1\<rparr>"]
    good fits
  have two: "\<exists>c. HasMatches Compile_literal (FindAll ascii_width)
       \<lparr>Name = ''panics'', RegEx = ''panic:'', HighThreshold = 1, LowThreshold = - 1\<rparr>
       ''panic: nil map'' = Inr c \<and> 0 \<le>s c" by blast
  from one two show ?thesis by blast
qed

subsection \<open>The scan of the library\<close>




text \<open>
  The scan and the sweep find the same occurrences: the bound \<open>len(b) + 1\<close> that
  \<open>FindAll\<close> puts in for \<open>-1\<close> never cuts the scan short, and a leftmost search that is
  resumed at the end of a match passes over exactly the positions that the match
  covers.
\<close>

lemma match_at_Some:
  "match_at re b p = Some e \<longleftrightarrow> re b p = Some (p, e)"
  by (auto simp: match_at_def split: option.splits)





text \<open>
  The occurrences of the sweep are matches of the regular expression, in the order of
  the text, and no two of them overlap.
\<close>

lemma sweep_starts:
  "(s, e) \<in> set (sweep width re b ps free prev_end) \<Longrightarrow> \<forall>p\<in>set ps. p \<le> length b
     \<Longrightarrow> s \<in> set ps \<and> free \<le> s \<and> re b s = Some (s, e)"
proof (induction ps arbitrary: free prev_end)
  case Nil
  then show ?case by simp
next
  case (Cons p ps)
  have inside: "\<forall>p\<in>set ps. p \<le> length b" and p: "p \<le> length b"
    using Cons.prems(2) by simp_all
  show ?case
  proof (cases "p < free")
    case True
    with Cons.prems have "(s, e) \<in> set (sweep width re b ps free prev_end)" by simp
    from Cons.IH [OF this inside] show ?thesis by simp
  next
    case nf: False
    show ?thesis
    proof (cases "match_at re b p")
      case None
      with nf Cons.prems have "(s, e) \<in> set (sweep width re b ps free prev_end)" by simp
      from Cons.IH [OF this inside] show ?thesis by simp
    next
      case (Some e')
      then have here: "re b p = Some (p, e')" by (simp add: match_at_Some)
      let ?after = "if 0 < width b p then p + width b p else length b + 1"
      have after: "p < ?after" using p by simp
      from nf Some Cons.prems(1)
      consider "(s, e) = (p, e')"
        | "p < e'" "(s, e) \<in> set (sweep width re b ps e' (Some e'))"
        | "\<not> p < e'" "(s, e) \<in> set (sweep width re b ps ?after (Some p))"
        by (auto split: if_splits)
      then show ?thesis
      proof cases
        case 1
        with here nf show ?thesis by simp
      next
        case 2
        from Cons.IH [OF 2(2) inside] 2(1) nf show ?thesis by simp
      next
        case 3
        from Cons.IH [OF 3(2) inside] have "s \<in> set ps" "?after \<le> s" "re b s = Some (s, e)"
          by simp_all
        with after nf show ?thesis by simp
      qed
    qed
  qed
qed

lemma sweep_disjoint:
  "\<forall>p\<in>set ps. p \<le> length b
     \<Longrightarrow> sorted_wrt (\<lambda>(s, e) (s', e'). e \<le> s') (sweep width re b ps free prev_end)"
proof (induction ps arbitrary: free prev_end)
  case Nil
  then show ?case by simp
next
  case (Cons p ps)
  have inside: "\<forall>p\<in>set ps. p \<le> length b" and p: "p \<le> length b"
    using Cons.prems by simp_all
  let ?after = "if 0 < width b p then p + width b p else length b + 1"
  have after: "p < ?after" using p by simp
  have later: "e \<le> s'" if "(s', e') \<in> set (sweep width re b ps f l)" "e \<le> f" for s' e' f l e
    using sweep_starts [OF that(1) inside] that(2) by simp
  note IH = Cons.IH [OF inside]
  show ?case
  proof (cases "p < free")
    case True
    with IH show ?thesis by simp
  next
    case nf: False
    show ?thesis
    proof (cases "match_at re b p")
      case None
      with nf IH show ?thesis by simp
    next
      case (Some e)
      show ?thesis
      proof (cases "p < e")
        case True
        with nf Some IH [of e "Some e"] later [of _ _ e "Some e" e]
        show ?thesis by auto
      next
        case False
        with after have "e \<le> ?after" by simp
        with nf Some False IH [of ?after "Some p"] later [of _ _ ?after "Some p" e]
        show ?thesis by auto
      qed
    qed
  qed
qed

lemma non_overlapping_occurrences_disjoint_matches:
  "sorted_wrt (\<lambda>(s, e) (s', e'). e \<le> s') (non_overlapping_occurrences width re b)
   \<and> (\<forall>(s, e) \<in> set (non_overlapping_occurrences width re b). re b s = Some (s, e))"
proof -
  have inside: "\<forall>p\<in>set [0..<Suc (length b)]. p \<le> length b" by (simp del: upt_Suc)
  show ?thesis
    unfolding non_overlapping_occurrences_def
    using sweep_disjoint [OF inside] sweep_starts [OF _ inside] by fast
qed








section \<open>Waiting\<close>

lemma poll_times_out:
  assumes pos: "0 < interval"
    and step: "\<And>v. I v \<Longrightarrow> fst (predicate v) = (False, None) \<and> I (snd (predicate v))"
  shows "I w \<Longrightarrow> \<exists>calls w'. poll interval timeout predicate elapsed c w = Some (TimedOut, calls, w')"
proof (induction "Suc timeout - elapsed" arbitrary: elapsed c w rule: less_induct)
  case less
  obtain w1 where p: "predicate w = ((False, None), w1)"
    using step [OF less.prems] by (cases "predicate w") auto
  have I1: "I w1" using step [OF less.prems] p by simp
  show ?case
  proof (cases "timeout < elapsed + interval")
    case True
    with p show ?thesis by (subst poll.simps) simp
  next
    case False
    with pos have "Suc timeout - (elapsed + interval) < Suc timeout - elapsed" by arith
    from less.hyps [OF this I1]
    obtain calls w' where
      "poll interval timeout predicate (elapsed + interval) (Suc c) w1 = Some (TimedOut, calls, w')"
      by blast
    with p False show ?thesis by (subst poll.simps) simp
  qed
qed

text \<open>
  C6. When the first invocation of the predicate returns a non-nil error, \<open>WaitUntil\<close>
  ends at once and returns this error to the caller: the predicate has been invoked
  exactly once, whatever the interval and the timeout.
\<close>

theorem WaitUntil_predicate_error:
  "predicate w = ((ok, Some e), w') \<Longrightarrow>
     WaitUntil interval timeout predicate w = Some (Failed e, 1, w')"
  unfolding WaitUntil_def by (subst poll.simps) simp

theorem WaitUntil_predicate_error_witness:
  "secret_exists \<lparr>list_answer = ([], Some ''forbidden''), err = None, secrets = [], secretName = []\<rparr>
     = ((False, Some ''forbidden''),
        \<lparr>list_answer = ([], Some ''forbidden''), err = Some ''forbidden'', secrets = [], secretName = []\<rparr>)
   \<and> WaitUntil 30 900 secret_exists
       \<lparr>list_answer = ([], Some ''forbidden''), err = None, secrets = [], secretName = []\<rparr>
     = Some (Failed ''forbidden'', 1,
        \<lparr>list_answer = ([], Some ''forbidden''), err = Some ''forbidden'', secrets = [], secretName = []\<rparr>)"
proof -
  have h: "secret_exists \<lparr>list_answer = ([], Some ''forbidden''), err = None, secrets = [], secretName = []\<rparr>
     = ((False, Some ''forbidden''),
        \<lparr>list_answer = ([], Some ''forbidden''), err = Some ''forbidden'', secrets = [], secretName = []\<rparr>)"
    by (simp add: secret_exists_def)
  from WaitUntil_predicate_error [where predicate = secret_exists and interval = 30
      and timeout = 900, OF h] h
  show ?thesis by simp
qed

text \<open>
  C7. For a predicate that always returns \<open>(false, nil)\<close> (in the world \<open>w\<close> and in every
  world a call of it leaves, \<open>I\<close> being a set of worlds closed under the predicate),
  \<open>WaitUntil\<close> with interval 1 and timeout 2 ends and reports \<open>TimedOut\<close>, an outcome
  that is neither a predicate error nor success.
\<close>

theorem WaitUntil_times_out:
  assumes "I w"
    and "\<And>v. I v \<Longrightarrow> fst (predicate v) = (False, None) \<and> I (snd (predicate v))"
  shows "\<exists>calls w'. WaitUntil 1 2 predicate w = Some (TimedOut, calls, w')
            \<and> (\<forall>e. WaitUntil 1 2 predicate w \<noteq> Some (Failed e, calls, w'))
            \<and> WaitUntil 1 2 predicate w \<noteq> Some (Succeeded, calls, w')"
proof -
  from poll_times_out [of 1 I predicate w 2 0 0] assms
  obtain calls w' where "poll 1 2 predicate 0 0 w = Some (TimedOut, calls, w')" by auto
  then show ?thesis unfolding WaitUntil_def by auto
qed

theorem WaitUntil_times_out_witness:
  "\<exists>calls w'. WaitUntil 1 2 secret_exists
       \<lparr>list_answer = ([], None :: string option), err = None, secrets = [], secretName = []\<rparr>
     = Some (TimedOut, calls, w')"
proof -
  let ?I = "\<lambda>v :: string certman_world. list_answer v = ([], None)"
  have a: "?I \<lparr>list_answer = ([], None), err = None, secrets = [], secretName = []\<rparr>" by simp
  have b: "\<And>v. ?I v \<Longrightarrow> fst (secret_exists v) = (False, None) \<and> ?I (snd (secret_exists v))"
    by (simp add: secret_exists_def)
  from WaitUntil_times_out [where I = ?I and predicate = secret_exists, OF a b]
  show ?thesis by blast
qed

end
